theory Spec2Isabelle
  imports Main
begin

section \<open>Python values and dictionaries\<close>

text \<open>
  The values of a configuration's "configurable" mapping are typed \<open>Any\<close> in the source.
  They are modelled by the JSON-like fragment of Python's values: \<open>None\<close>, booleans,
  unbounded integers, strings and lists.  Lists stand for the unhashable values: using one
  as a dictionary key raises \<open>TypeError\<close>.
\<close>

datatype pyval = PNone | PBool bool | PInt int | PStr string | PList "pyval list"

text \<open>Python's truth value of an object, as tested by \<open>not which\<close>.\<close>

fun truthy :: "pyval \<Rightarrow> bool" where
  "truthy PNone = False"
| "truthy (PBool b) = b"
| "truthy (PInt i) = (i \<noteq> 0)"
| "truthy (PStr s) = (s \<noteq> [])"
| "truthy (PList xs) = (xs \<noteq> [])"

fun hashable :: "pyval \<Rightarrow> bool" where
  "hashable (PList xs) = False"
| "hashable v = True"

text \<open>
  An f-string is kept as its parts: the literal text and the interpolated values, so that
  an error message names the value it was formatted with.
\<close>

datatype fpart = Lit string | Val pyval

datatype error =
    ValueError "fpart list"
  | TypeError "fpart list"
  | KeyError pyval
  | IndexError
  | Raised string

text \<open>
  A Python \<open>dict\<close> is an association list in insertion order; a well-formed one has no
  key twice.  \<open>d.get(k)\<close> is \<open>map_of d k\<close>, \<open>d[k] = v\<close> is \<open>dict_set\<close> (an existing key
  keeps its position, a new key goes last), \<open>{**a, **b}\<close> is \<open>dict_merge\<close> and a dict
  comprehension is \<open>dict_of_items\<close>: both store the items one after the other, so a later
  item wins.
\<close>

type_synonym ('k, 'v) dict = "('k \<times> 'v) list"


fun dict_set :: "('k, 'v) dict \<Rightarrow> 'k \<Rightarrow> 'v \<Rightarrow> ('k, 'v) dict" where
  "dict_set [] k v = [(k, v)]"
| "dict_set ((k', v') # d) k v =
     (if k' = k then (k, v) # d else (k', v') # dict_set d k v)"

definition dict_merge :: "('k, 'v) dict \<Rightarrow> ('k, 'v) dict \<Rightarrow> ('k, 'v) dict" where
  "dict_merge a b = fold (\<lambda>(k, v) d. dict_set d k v) b a"

definition dict_of_items :: "('k \<times> 'v) list \<Rightarrow> ('k, 'v) dict" where
  "dict_of_items xs = dict_merge [] xs"

text \<open>
  \<open>which in alternatives\<close> and \<open>alternatives[which]\<close> for a dictionary with string keys and
  an arbitrary value \<open>which\<close>: hashing an unhashable value raises \<open>TypeError\<close>; a value
  that is not a string equals no string key.
\<close>

definition unhashable_message :: "fpart list" where
  "unhashable_message = [Lit (''unhashable type: '' @ [CHR 0x27] @ ''list'' @ [CHR 0x27])]"

fun py_contains :: "(string, 'v) dict \<Rightarrow> pyval \<Rightarrow> error + bool" where
  "py_contains d (PStr k) = Inr (map_of d k \<noteq> None)"
| "py_contains d (PList xs) = Inl (TypeError unhashable_message)"
| "py_contains d v = Inr False"

fun py_getitem :: "(string, 'v) dict \<Rightarrow> pyval \<Rightarrow> error + 'v" where
  "py_getitem d (PStr k) = (case map_of d k of None \<Rightarrow> Inl (KeyError (PStr k)) | Some a \<Rightarrow> Inr a)"
| "py_getitem d (PList xs) = Inl (TypeError unhashable_message)"
| "py_getitem d v = Inl (KeyError v)"

section \<open>Configurations, field descriptors and executable units\<close>

text \<open>
  Modelled from the spec: the type \<open>RunnableConfig\<close> is imported from
  \<open>langchain.schema.runnable.config\<close>, which is not among the sources.  The spec (section 3,
  RuntimeConfig) describes it as a per-call object with an optional nested mapping
  "configurable" from field or selector ids to values, and an optional concurrency limit.
\<close>

record runnable_config =
  configurable :: "(string, pyval) dict option"
  max_concurrency :: "nat option"

definition empty_config :: runnable_config where
  "empty_config = \<lparr>configurable = None, max_concurrency = None\<rparr>"

text \<open>The \<open>config\<close> argument of \<open>batch\<close>: absent, one configuration, or a list of them.\<close>

datatype config_arg = NoConfig | One runnable_config | Many "runnable_config list"

text \<open>\<open>config = config or {}\<close>\<close>

fun config_or_empty :: "runnable_config option \<Rightarrow> runnable_config" where
  "config_or_empty None = empty_config"
| "config_or_empty (Some c) = c"

text \<open>\<open>config.get("configurable", {})\<close>\<close>

definition get_configurable :: "runnable_config \<Rightarrow> (string, pyval) dict" where
  "get_configurable c = (case configurable c of None \<Rightarrow> [] | Some d \<Rightarrow> d)"

text \<open>
  Modelled from the spec: \<open>ConfigurableField\<close> and \<open>ConfigurableFieldSpec\<close> are imported from
  \<open>langchain.schema.runnable.utils\<close>, which is not among the sources.  Their fields are
  the ones the source reads and writes (\<open>id\<close>, \<open>name\<close>, \<open>description\<close>, \<open>annotation\<close>,
  \<open>default\<close>; spec section 3, FieldSpec).  An annotation is a literal type, a union of
  annotations, or some other named type.
\<close>

datatype annotation = Literal string | Union "annotation list" | Named string

fun value_space :: "annotation \<Rightarrow> string set" where
  "value_space (Literal s) = {s}"
| "value_space (Union as) = (\<Union>a \<in> set as. value_space a)"
| "value_space (Named n) = {}"

record configurable_field =
  field_id :: string
  field_name :: "string option"
  field_description :: "string option"
  field_annotation :: "annotation option"

record configurable_field_spec =
  spec_id :: string
  spec_name :: "string option"
  spec_description :: "string option"
  spec_annotation :: "annotation option"
  spec_default :: pyval

text \<open>
  An executable unit is an object: its identity (what Python's \<open>is\<close> compares), its class
  and its current full attribute set (\<open>bound.dict()\<close>).  The layer never mutates a unit, so
  units are passed by value and the only state is the allocation counter, the identity
  that the next constructed object receives.  In a well-formed state the counter is above
  the identity of every existing object, so a constructed object is identical to none of
  them.
\<close>

record runnable =
  ident :: nat
  cls :: string
  attrs :: "(string, pyval) dict"

text \<open>
  The behaviour of the units is external to this layer and is a parameter of the model:
  what a unit of a given class with given attributes returns from \<open>invoke\<close>, from its own
  \<open>batch\<close> primitive and from \<open>config_specs\<close>, and what the constructor of a class does
  with its keyword arguments.  An \<open>invoke\<close> either raises (\<open>Inl\<close>) or returns an output; a
  \<open>batch\<close> either raises or returns one item per input, an item being an output or, under
  \<open>return_exceptions\<close>, a captured exception.  A constructor validates its keyword
  arguments: it either raises or returns the attribute set of the new object, in which it
  may have coerced values and dropped or defaulted fields.
\<close>

record ('i, 'o, 'kw) world =
  invoke_of :: "string \<Rightarrow> (string, pyval) dict \<Rightarrow> 'i \<Rightarrow> runnable_config option \<Rightarrow> 'kw \<Rightarrow> error + 'o"
  batch_of :: "string \<Rightarrow> (string, pyval) dict \<Rightarrow> 'i list \<Rightarrow> config_arg \<Rightarrow> bool \<Rightarrow> 'kw
                 \<Rightarrow> error + (error + 'o) list"
  config_specs_of :: "string \<Rightarrow> (string, pyval) dict \<Rightarrow> configurable_field_spec list"
  construct_of :: "string \<Rightarrow> (string, pyval) dict \<Rightarrow> error + (string, pyval) dict"

definition unit_invoke ::
  "('i, 'o, 'kw) world \<Rightarrow> runnable \<Rightarrow> 'i \<Rightarrow> runnable_config option \<Rightarrow> 'kw \<Rightarrow> error + 'o" where
  "unit_invoke w u x config kw = invoke_of w (cls u) (attrs u) x config kw"

definition unit_batch ::
  "('i, 'o, 'kw) world \<Rightarrow> runnable \<Rightarrow> 'i list \<Rightarrow> config_arg \<Rightarrow> bool \<Rightarrow> 'kw
     \<Rightarrow> error + (error + 'o) list" where
  "unit_batch w u xs config return_exceptions kw =
     batch_of w (cls u) (attrs u) xs config return_exceptions kw"

definition unit_config_specs :: "('i, 'o, 'kw) world \<Rightarrow> runnable \<Rightarrow> configurable_field_spec list" where
  "unit_config_specs w u = config_specs_of w (cls u) (attrs u)"

text \<open>
  \<open>bound.__class__(**kwargs)\<close>, line 230: the constructor of the class is called with
  the keyword arguments.  When it raises, the exception leaves the call; otherwise the
  result is a new object (a fresh identity) of that class with the attribute set the
  constructor made.
\<close>

definition construct ::
  "('i, 'o, 'kw) world \<Rightarrow> string \<Rightarrow> (string, pyval) dict \<Rightarrow> nat \<Rightarrow> (error + runnable) \<times> nat" where
  "construct w c kwargs n =
     (case construct_of w c kwargs of
        Inl e \<Rightarrow> (Inl e, n)
      | Inr a \<Rightarrow> (Inr \<lparr>ident = n, cls = c, attrs = a\<rparr>, Suc n))"

text \<open>
  Modelled from the spec: \<open>get_config_list\<close> is imported from
  \<open>langchain.schema.runnable.config\<close>, which is not among the sources.  The spec (section
  4.1, batch, step 1): "Broadcast config_or_list to one configuration per input (replicate a
  single config, or require equal length if a list is given)."  An absent configuration is
  broadcast as the empty one; the text of the error message is not fixed by the spec.
\<close>

fun get_config_list :: "config_arg \<Rightarrow> nat \<Rightarrow> error + runnable_config list" where
  "get_config_list NoConfig n = Inr (replicate n empty_config)"
| "get_config_list (One c) n = Inr (replicate n c)"
| "get_config_list (Many cs) n =
     (if length cs = n then Inr cs
      else Inl (ValueError [Lit ''config must be a list of the same length as inputs, but got '',
                  Val (PInt (int (length cs))), Lit '' configs for '', Val (PInt (int n)),
                  Lit '' inputs'']))"

section \<open>The two resolvers\<close>

text \<open>
  \<open>DynamicRunnable\<close> has two subclasses; each has the \<open>bound\<close> unit.
  \<open>RunnableConfigurableFields\<close> adds \<open>fields\<close>, a dictionary from the bound unit's field
  names to descriptors; \<open>RunnableConfigurableAlternatives\<close> adds the selector \<open>which\<close> and
  the dictionary \<open>alternatives\<close> from keys to units.
\<close>

datatype resolver =
    RunnableConfigurableFields (bound: runnable) (fields: "(string, configurable_field) dict")
  | RunnableConfigurableAlternatives (bound: runnable) (which: configurable_field)
      (alternatives: "(string, runnable) dict")

text \<open>\<open>RunnableConfigurableFields._prepare\<close>, lines 218 to 232.\<close>

definition specs_by_id ::
  "(string, configurable_field) dict \<Rightarrow> (string, string \<times> configurable_field) dict" where
  "specs_by_id flds = dict_of_items (map (\<lambda>(key, spec). (field_id spec, (key, spec))) flds)"

text \<open>
  The items of the comprehension of lines 223 to 227, in the order of the configuration's
  items: for every key that is a declared id, the field's name with the configured value.
\<close>

definition matched_items ::
  "(string, configurable_field) dict \<Rightarrow> (string, pyval) dict \<Rightarrow> (string \<times> pyval) list" where
  "matched_items flds d =
     List.map_filter
       (\<lambda>(k, v). case map_of (specs_by_id flds) k of
                    None \<Rightarrow> None
                  | Some (key, spec) \<Rightarrow> Some (key, v))
       d"

definition matched_fields ::
  "(string, configurable_field) dict \<Rightarrow> (string, pyval) dict \<Rightarrow> (string, pyval) dict" where
  "matched_fields flds d = dict_of_items (matched_items flds d)"

text \<open>The keyword arguments of line 230: \<open>{**self.bound.dict(), **configurable}\<close>.\<close>

definition rebuild_kwargs :: "runnable \<Rightarrow> (string, pyval) dict \<Rightarrow> (string, pyval) dict" where
  "rebuild_kwargs b overrides = dict_merge (attrs b) overrides"

definition prepare_fields ::
  "('i, 'o, 'kw) world \<Rightarrow> runnable \<Rightarrow> (string, configurable_field) dict
     \<Rightarrow> runnable_config option \<Rightarrow> nat \<Rightarrow> (error + runnable) \<times> nat" where
  "prepare_fields w b flds config n =
     (let config = config_or_empty config;
          configurable = matched_fields flds (get_configurable config)
      in if configurable \<noteq> [] then construct w (cls b) (rebuild_kwargs b configurable) n
         else (Inr b, n))"

text \<open>\<open>RunnableConfigurableAlternatives._prepare\<close>, lines 266 to 276.\<close>

text \<open>
  \<open>config.get("configurable", {}).get(self.which.id)\<close>: the value stored under the
  selector's id, and \<open>None\<close> when there is none.
\<close>

definition selector_value :: "configurable_field \<Rightarrow> runnable_config \<Rightarrow> pyval" where
  "selector_value wh config =
     (case map_of (get_configurable config) (field_id wh) of None \<Rightarrow> PNone | Some v \<Rightarrow> v)"

definition prepare_alternatives ::
  "runnable \<Rightarrow> configurable_field \<Rightarrow> (string, runnable) dict \<Rightarrow> runnable_config option
     \<Rightarrow> error + runnable" where
  "prepare_alternatives b wh alts config =
     (let config = config_or_empty config;
          which = selector_value wh config
      in if \<not> truthy which then Inr b
         else (case py_contains alts which of
                 Inl e \<Rightarrow> Inl e
               | Inr True \<Rightarrow> py_getitem alts which
               | Inr False \<Rightarrow> Inl (ValueError [Lit ''Unknown alternative: '', Val which])))"

text \<open>The abstract method \<open>_prepare\<close>, dispatched on the class of the resolver.\<close>

fun prepare ::
  "('i, 'o, 'kw) world \<Rightarrow> resolver \<Rightarrow> runnable_config option \<Rightarrow> nat
     \<Rightarrow> (error + runnable) \<times> nat" where
  "prepare w (RunnableConfigurableFields b flds) config n = prepare_fields w b flds config n"
| "prepare w (RunnableConfigurableAlternatives b wh alts) config n =
     (prepare_alternatives b wh alts config, n)"

text \<open>\<open>RunnableConfigurableAlternatives.config_specs\<close>, lines 240 to 255.\<close>

definition config_specs_alternatives ::
  "('i, 'o, 'kw) world \<Rightarrow> runnable \<Rightarrow> configurable_field \<Rightarrow> (string, runnable) dict
     \<Rightarrow> configurable_field_spec list" where
  "config_specs_alternatives w b wh alts =
     (let alt_keys = map fst alts;
          which_keys = map Literal alt_keys @ [Literal ''default'']
      in ([\<lparr>spec_id = field_id wh,
            spec_name = field_name wh,
            spec_description = field_description wh,
            spec_annotation = Some (Union which_keys),
            spec_default = PStr ''default''\<rparr>]
          @ unit_config_specs w b)
         @ concat (map (\<lambda>alt. unit_config_specs w alt) (map snd alts)))"

section \<open>The dispatch layer\<close>

text \<open>\<open>DynamicRunnable.invoke\<close>, lines 70 to 73.\<close>

definition invoke ::
  "('i, 'o, 'kw) world \<Rightarrow> resolver \<Rightarrow> 'i \<Rightarrow> runnable_config option \<Rightarrow> 'kw \<Rightarrow> nat
     \<Rightarrow> (error + 'o) \<times> nat" where
  "invoke w r x config kw n =
     (case prepare w r config n of
        (Inl e, n') \<Rightarrow> (Inl e, n')
      | (Inr u, n') \<Rightarrow> (unit_invoke w u x config kw, n'))"

text \<open>
  The list comprehension \<open>[self._prepare(c) for c in configs]\<close>: one resolution after the
  other; the first one that raises ends the comprehension.
\<close>

fun prepare_all ::
  "('i, 'o, 'kw) world \<Rightarrow> resolver \<Rightarrow> runnable_config list \<Rightarrow> nat
     \<Rightarrow> (error + runnable list) \<times> nat" where
  "prepare_all w r [] n = (Inr [], n)"
| "prepare_all w r (c # cs) n =
     (case prepare w r (Some c) n of
        (Inl e, n') \<Rightarrow> (Inl e, n')
      | (Inr p, n') \<Rightarrow>
          (case prepare_all w r cs n' of
             (Inl e, n'') \<Rightarrow> (Inl e, n'')
           | (Inr ps, n'') \<Rightarrow> (Inr (p # ps), n'')))"

text \<open>
  The local function \<open>invoke\<close> of \<open>batch\<close>, lines 101 to 112: under \<open>return_exceptions\<close> an
  exception of the unit is returned as the item, otherwise it is raised.
\<close>

definition invoke_item ::
  "('i, 'o, 'kw) world \<Rightarrow> bool \<Rightarrow> 'kw \<Rightarrow> runnable \<Rightarrow> 'i \<Rightarrow> runnable_config
     \<Rightarrow> error + (error + 'o)" where
  "invoke_item w return_exceptions kw b x config =
     (if return_exceptions then Inr (unit_invoke w b x (Some config) kw)
      else (case unit_invoke w b x (Some config) kw of
              Inl e \<Rightarrow> Inl e
            | Inr y \<Rightarrow> Inr (Inr y)))"

text \<open>
  Modelled from the spec: the worker pool of \<open>get_executor_for_config\<close> is not among the
  sources.  The spec (section 4.1, batch, step 4): the triples are dispatched onto a pool
  and the results are collected "positionally in original input order".  \<open>list(executor.map
  (f, ps, xs, cs))\<close> reads the results in input order, so the first call in that order that
  raised is the one whose exception leaves the call.
\<close>

fun collect :: "(error + 'a) list \<Rightarrow> error + 'a list" where
  "collect [] = Inr []"
| "collect (Inl e # rs) = Inl e"
| "collect (Inr y # rs) = (case collect rs of Inl e \<Rightarrow> Inl e | Inr ys \<Rightarrow> Inr (y # ys))"

definition executor_map ::
  "('p \<Rightarrow> 'x \<Rightarrow> 'c \<Rightarrow> error + 'a) \<Rightarrow> 'p list \<Rightarrow> 'x list \<Rightarrow> 'c list \<Rightarrow> error + 'a list" where
  "executor_map f ps xs cs = collect (map (\<lambda>(p, x, c). f p x c) (zip ps (zip xs cs)))"

text \<open>\<open>xs[0]\<close> raises \<open>IndexError\<close> on an empty list.\<close>

fun item0 :: "'a list \<Rightarrow> error + 'a" where
  "item0 [] = Inl IndexError"
| "item0 (x # xs) = Inr x"

text \<open>\<open>DynamicRunnable.batch\<close>, lines 80 to 121.\<close>

definition batch ::
  "('i, 'o, 'kw) world \<Rightarrow> resolver \<Rightarrow> 'i list \<Rightarrow> config_arg \<Rightarrow> bool \<Rightarrow> 'kw \<Rightarrow> nat
     \<Rightarrow> (error + (error + 'o) list) \<times> nat" where
  "batch w r inputs config return_exceptions kw n =
     (case get_config_list config (length inputs) of
        Inl e \<Rightarrow> (Inl e, n)
      | Inr configs \<Rightarrow>
          (case prepare_all w r configs n of
             (Inl e, n') \<Rightarrow> (Inl e, n')
           | (Inr prepared, n') \<Rightarrow>
               if list_all (\<lambda>p. ident p = ident (bound r)) prepared
               then (unit_batch w (bound r) inputs config return_exceptions kw, n')
               else if inputs = [] then (Inr [], n')
               else
                 (case get_config_list config (length inputs) of
                    Inl e \<Rightarrow> (Inl e, n')
                  | Inr configs \<Rightarrow>
                      if length inputs = 1
                      then
                        (case (item0 prepared, item0 inputs, item0 configs) of
                           (Inr p, Inr x, Inr c) \<Rightarrow>
                             (case invoke_item w return_exceptions kw p x c of
                                Inl e \<Rightarrow> (Inl e, n')
                              | Inr y \<Rightarrow> (Inr [y], n'))
                         | (Inl e, _, _) \<Rightarrow> (Inl e, n')
                         | (_, Inl e, _) \<Rightarrow> (Inl e, n')
                         | (_, _, Inl e) \<Rightarrow> (Inl e, n'))
                      else
                        (executor_map (invoke_item w return_exceptions kw) prepared inputs configs,
                         n'))))"

text \<open>
  The ids a resolver looks for in the "configurable" mapping: the ids of its field
  descriptors, respectively the id of its selector.
\<close>

fun declared_ids :: "resolver \<Rightarrow> string set" where
  "declared_ids (RunnableConfigurableFields b flds) = field_id ` snd ` set flds"
| "declared_ids (RunnableConfigurableAlternatives b wh alts) = {field_id wh}"

section \<open>Example objects\<close>

text \<open>
  The objects of the examples of the spec (section 8): the alternatives
  \<open>{"fast": A, "slow": B}\<close> with the bound default \<open>C\<close>, and the field \<open>temp\<close> declared
  under the id \<open>temperature\<close>; a world in which the slow model times out, the other
  models add their \<open>temp\<close> to the input, the batch primitive multiplies by 100, and the
  constructors reject a string as \<open>temp\<close> and keep every other attribute set as given; and
  a resolver that declares two fields under one id.  They are the concrete inputs of the
  witnesses and the counterexamples.
\<close>

definition unit_A :: runnable where
  "unit_A = \<lparr>ident = 1, cls = ''FastModel'', attrs = [(''temp'', PInt 1)]\<rparr>"

definition unit_B :: runnable where
  "unit_B = \<lparr>ident = 2, cls = ''SlowModel'', attrs = [(''temp'', PInt 2)]\<rparr>"

definition unit_C :: runnable where
  "unit_C = \<lparr>ident = 0, cls = ''DefaultModel'', attrs = [(''temp'', PInt 7), (''top'', PInt 5)]\<rparr>"

definition which_model :: configurable_field where
  "which_model = \<lparr>field_id = ''model'', field_name = None, field_description = None,
     field_annotation = None\<rparr>"

definition selector_example :: resolver where
  "selector_example =
     RunnableConfigurableAlternatives unit_C which_model [(''fast'', unit_A), (''slow'', unit_B)]"

definition select :: "pyval \<Rightarrow> runnable_config" where
  "select v = \<lparr>configurable = Some [(''model'', v)], max_concurrency = None\<rparr>"

definition temperature_field :: configurable_field where
  "temperature_field = \<lparr>field_id = ''temperature'', field_name = None,
     field_description = None, field_annotation = None\<rparr>"

definition fields_example :: resolver where
  "fields_example = RunnableConfigurableFields unit_C [(''temp'', temperature_field)]"

definition configure :: "(string, pyval) dict \<Rightarrow> runnable_config" where
  "configure d = \<lparr>configurable = Some d, max_concurrency = None\<rparr>"

definition example_world :: "(int, int, unit) world" where
  "example_world =
     \<lparr>invoke_of = (\<lambda>c a x config kw.
         if c = ''SlowModel'' then Inl (Raised ''timeout'')
         else (case map_of a ''temp'' of Some (PInt t) \<Rightarrow> Inr (x + t) | _ \<Rightarrow> Inr x)),
      batch_of = (\<lambda>c a xs config return_exceptions kw. Inr (map (\<lambda>x. Inr (100 * x)) xs)),
      config_specs_of = (\<lambda>c a.
         if c = ''SlowModel''
         then [\<lparr>spec_id = ''retries'', spec_name = None, spec_description = None,
                 spec_annotation = Some (Named ''int''), spec_default = PInt 2\<rparr>]
         else []),
      construct_of = (\<lambda>c kwargs.
         case map_of kwargs ''temp'' of
           Some (PStr s) \<Rightarrow> Inl (Raised ''validation error'')
         | _ \<Rightarrow> Inr kwargs)\<rparr>"


section \<open>Properties\<close>

subsection \<open>Dictionaries\<close>


lemma map_fst_dict_set:
  "map fst (dict_set d k v) = (if k \<in> set (map fst d) then map fst d else map fst d @ [k])"
  by (induction d) (auto split: if_splits)

lemma keys_dict_set: "fst ` set (dict_set d k v) = insert k (fst ` set d)"
proof -
  have "set (map fst (dict_set d k v)) = insert k (set (map fst d))"
    unfolding map_fst_dict_set by auto
  then show ?thesis by simp
qed

lemma keys_dict_merge: "fst ` set (dict_merge a b) = fst ` set a \<union> fst ` set b"
  unfolding dict_merge_def
proof (induction b arbitrary: a)
  case Nil
  show ?case by simp
next
  case (Cons p b)
  obtain k v where p: "p = (k, v)" by (cases p)
  show ?case by (simp add: p Cons.IH keys_dict_set)
qed

lemma dict_merge_Nil [simp]: "dict_merge a [] = a"
  by (simp add: dict_merge_def)

lemma dict_of_items_Nil [simp]: "dict_of_items [] = []"
  by (simp add: dict_of_items_def)









lemma map_filter_None: "(\<And>x. x \<in> set xs \<Longrightarrow> f x = None) \<Longrightarrow> List.map_filter f xs = []"
  by (induction xs) (auto simp: List.map_filter_simps)

lemma map_filter_filter:
  "(\<And>x. x \<in> set xs \<Longrightarrow> \<not> P x \<Longrightarrow> f x = None) \<Longrightarrow>
   List.map_filter f (filter P xs) = List.map_filter f xs"
  by (induction xs) (auto split: option.splits)

lemma map_of_filter_other_keys:
  "k \<notin> set ks \<Longrightarrow> map_of (filter (\<lambda>(k', v). k' \<notin> set ks) d) k = map_of d k"
  by (induction d) auto

subsection \<open>Resolution by the selector\<close>

lemma prepare_alternatives_falsy:
  "\<not> truthy (selector_value wh (config_or_empty config)) \<Longrightarrow>
   prepare_alternatives b wh alts config = Inr b"
  by (simp add: prepare_alternatives_def)

lemma prepare_alternatives_truthy:
  "truthy v \<Longrightarrow> selector_value wh (config_or_empty config) = v \<Longrightarrow>
   prepare_alternatives b wh alts config =
     (case v of
        PStr k \<Rightarrow> (case map_of alts k of
                     Some a \<Rightarrow> Inr a
                   | None \<Rightarrow> Inl (ValueError [Lit ''Unknown alternative: '', Val v]))
      | PList xs \<Rightarrow> Inl (TypeError unhashable_message)
      | _ \<Rightarrow> Inl (ValueError [Lit ''Unknown alternative: '', Val v]))"
  by (cases v) (auto simp: prepare_alternatives_def split: option.splits)

lemma prepare_selector_example:
  "prepare example_world selector_example (Some (select v)) n
     = (prepare_alternatives unit_C which_model [(''fast'', unit_A), (''slow'', unit_B)]
          (Some (select v)), n)"
  by (simp add: selector_example_def)

lemma selector_value_select: "selector_value which_model (select v) = v"
  by (simp add: selector_value_def get_configurable_def select_def which_model_def)

text \<open>
  Claim C1, as amended.  \<open>RunnableConfigurableAlternatives._prepare\<close> is a case split on
  the value \<open>v\<close> stored under the selector's id (\<open>None\<close> when absent): a falsy \<open>v\<close>
  gives the bound unit; a string that is a registered key gives that alternative as
  registered; any other truthy hashable value raises
  \<open>ValueError("Unknown alternative: v")\<close>; and a truthy unhashable value (a non-empty list)
  makes the membership test itself raise \<open>TypeError\<close>.  The allocation counter is
  unchanged: nothing is rebuilt.
\<close>

theorem prepare_alternatives_split:
  fixes w b wh alts config n
  defines "v \<equiv> selector_value wh (config_or_empty config)"
  defines "res \<equiv> prepare w (RunnableConfigurableAlternatives b wh alts) config n"
  shows "(\<not> truthy v \<longrightarrow> res = (Inr b, n)) \<and>
         (\<forall>k a. truthy v \<and> v = PStr k \<and> map_of alts k = Some a \<longrightarrow> res = (Inr a, n)) \<and>
         (truthy v \<and> hashable v \<and> v \<notin> PStr ` fst ` set alts \<longrightarrow>
            res = (Inl (ValueError [Lit ''Unknown alternative: '', Val v]), n)) \<and>
         (truthy v \<and> \<not> hashable v \<longrightarrow> res = (Inl (TypeError unhashable_message), n))"
proof (cases "truthy v")
  case False
  then show ?thesis
    unfolding v_def res_def by (simp add: prepare_alternatives_falsy)
next
  case True
  have none: "map_of alts k = None" if "v = PStr k" "v \<notin> PStr ` fst ` set alts" for k
    using that by (auto simp: map_of_eq_None_iff image_iff)
  from True have "prepare_alternatives b wh alts config =
     (case v of
        PStr k \<Rightarrow> (case map_of alts k of
                     Some a \<Rightarrow> Inr a
                   | None \<Rightarrow> Inl (ValueError [Lit ''Unknown alternative: '', Val v]))
      | PList xs \<Rightarrow> Inl (TypeError unhashable_message)
      | _ \<Rightarrow> Inl (ValueError [Lit ''Unknown alternative: '', Val v]))"
    unfolding v_def by (rule prepare_alternatives_truthy) simp
  with True none show ?thesis
    unfolding res_def by (cases v) (auto split: option.splits)
qed

theorem prepare_alternatives_split_witness:
  "prepare example_world selector_example None 3 = (Inr unit_C, 3) \<and>
   prepare example_world selector_example (Some (select (PStr ''''))) 3 = (Inr unit_C, 3) \<and>
   prepare example_world selector_example (Some (select (PStr ''fast''))) 3 = (Inr unit_A, 3) \<and>
   prepare example_world selector_example (Some (select (PStr ''bogus''))) 3
     = (Inl (ValueError [Lit ''Unknown alternative: '', Val (PStr ''bogus'')]), 3) \<and>
   prepare example_world selector_example (Some (select (PList [PStr ''fast'']))) 3
     = (Inl (TypeError unhashable_message), 3)"
proof -
  have v: "selector_value which_model (select x) = x" for x
    by (simp add: selector_value_def get_configurable_def select_def which_model_def)
  have e: "selector_value which_model empty_config = PNone"
    by (simp add: selector_value_def get_configurable_def empty_config_def)
  note th = prepare_alternatives_split
    [where w = example_world and wh = which_model and b = unit_C and n = 3 and alts = "[(''fast'', unit_A), (''slow'', unit_B)]"]
  from th [where config = None] th [where config = "Some (select (PStr ''''))"] th [where config = "Some (select (PStr ''fast''))"]
    th [where config = "Some (select (PStr ''bogus''))"] th [where config = "Some (select (PList [PStr ''fast'']))"]
  show ?thesis
    by (simp add: selector_example_def v e image_iff)
qed

text \<open>
  Claim C1 as stated fails: with the selector set to the list \<open>["fast"]\<close> the value is
  present, not empty and no registered key, yet the call raises \<open>TypeError\<close> from
  \<open>which in self.alternatives\<close> instead of the unrecognized-alternative \<open>ValueError\<close>.
\<close>

theorem prepare_alternatives_unhashable_counterexample:
  "prepare example_world selector_example (Some (select (PList [PStr ''fast'']))) 3
     = (Inl (TypeError unhashable_message), 3)
   \<and> TypeError unhashable_message
     \<noteq> ValueError [Lit ''Unknown alternative: '', Val (PList [PStr ''fast''])]"
  by (simp add: selector_example_def select_def prepare_alternatives_def selector_value_def
        get_configurable_def which_model_def)

text \<open>
  Claim C10.  Every falsy value of the selector (the empty string, \<open>0\<close>, \<open>False\<close>,
  \<open>None\<close>) resolves to the bound unit as an absent selector does, and the
  unrecognized-alternative error is raised only for a truthy value that is no registered
  key; its message names that value.
\<close>

theorem prepare_alternatives_falsy_like_absent:
  fixes w b wh alts config n
  defines "v \<equiv> selector_value wh (config_or_empty config)"
  defines "res \<equiv> prepare w (RunnableConfigurableAlternatives b wh alts) config n"
  shows "(v \<in> {PStr '''', PInt 0, PBool False, PNone} \<longrightarrow> res = (Inr b, n)) \<and>
         (\<not> truthy v \<longrightarrow> res = (Inr b, n)) \<and>
         (\<forall>msg. fst res = Inl (ValueError msg) \<longrightarrow>
            truthy v \<and> v \<notin> PStr ` fst ` set alts \<and> msg = [Lit ''Unknown alternative: '', Val v])"
proof -
  have falsy: "res = (Inr b, n)" if "\<not> truthy v"
    using that unfolding v_def res_def by (simp add: prepare_alternatives_falsy)
  have raised: "truthy v \<and> v \<notin> PStr ` fst ` set alts \<and> msg = [Lit ''Unknown alternative: '', Val v]"
    if "fst res = Inl (ValueError msg)" for msg
  proof -
    from that falsy have t: "truthy v" by (cases "truthy v") auto
    then have "prepare_alternatives b wh alts config =
     (case v of
        PStr k \<Rightarrow> (case map_of alts k of
                     Some a \<Rightarrow> Inr a
                   | None \<Rightarrow> Inl (ValueError [Lit ''Unknown alternative: '', Val v]))
      | PList xs \<Rightarrow> Inl (TypeError unhashable_message)
      | _ \<Rightarrow> Inl (ValueError [Lit ''Unknown alternative: '', Val v]))"
      unfolding v_def by (intro prepare_alternatives_truthy) simp_all
    with that t show ?thesis
      unfolding res_def
      by (cases v) (auto split: option.splits simp: map_of_eq_None_iff image_iff)
  qed
  from falsy raised show ?thesis by auto
qed

theorem prepare_alternatives_falsy_like_absent_witness:
  "prepare example_world selector_example (Some (select (PStr ''''))) 3 = (Inr unit_C, 3) \<and>
   prepare example_world selector_example (Some (select (PInt 0))) 3 = (Inr unit_C, 3) \<and>
   prepare example_world selector_example (Some (select (PBool False))) 3 = (Inr unit_C, 3) \<and>
   prepare example_world selector_example (Some (select PNone)) 3 = (Inr unit_C, 3) \<and>
   prepare example_world selector_example (Some empty_config) 3 = (Inr unit_C, 3) \<and>
   fst (prepare example_world selector_example (Some (select (PInt 5))) 3)
     = Inl (ValueError [Lit ''Unknown alternative: '', Val (PInt 5)]) \<and>
   truthy (PInt 5) \<and> PInt 5 \<notin> PStr ` fst ` set [(''fast'', unit_A), (''slow'', unit_B)]"
proof -
  have v: "selector_value which_model (select x) = x" for x
    by (simp add: selector_value_def get_configurable_def select_def which_model_def)
  have e: "selector_value which_model empty_config = PNone"
    by (simp add: selector_value_def get_configurable_def empty_config_def)
  have r: "fst (prepare example_world selector_example (Some (select (PInt 5))) 3)
     = Inl (ValueError [Lit ''Unknown alternative: '', Val (PInt 5)])"
    by (simp add: selector_example_def prepare_alternatives_def v Let_def)
  note th = prepare_alternatives_falsy_like_absent
    [where w = example_world and wh = which_model and b = unit_C and n = 3 and alts = "[(''fast'', unit_A), (''slow'', unit_B)]"]
  from th [where config = "Some (select (PStr ''''))"] th [where config = "Some (select (PInt 0))"]
    th [where config = "Some (select (PBool False))"] th [where config = "Some (select PNone)"]
    th [where config = "Some empty_config"] th [where config = "Some (select (PInt 5))"] r
  show ?thesis
    by (simp add: selector_example_def v e)
qed

subsection \<open>Resolution by field overrides\<close>

lemma keys_specs_by_id: "fst ` set (specs_by_id flds) = field_id ` snd ` set flds"
  by (force simp: specs_by_id_def dict_of_items_def keys_dict_merge image_iff)

lemma specs_by_id_None: "map_of (specs_by_id flds) k = None \<longleftrightarrow> k \<notin> field_id ` snd ` set flds"
  by (simp add: map_of_eq_None_iff keys_specs_by_id)

lemma matched_items_unmatched:
  assumes "\<And>k. k \<in> fst ` set d \<Longrightarrow> k \<notin> field_id ` snd ` set flds"
  shows "matched_items flds d = []"
  unfolding matched_items_def
proof (rule map_filter_None)
  fix x assume "x \<in> set d"
  then have "fst x \<notin> field_id ` snd ` set flds" using assms by blast
  then have "map_of (specs_by_id flds) (fst x) = None" by (simp add: specs_by_id_None)
  then show "(case x of (k, v) \<Rightarrow> case map_of (specs_by_id flds) k of
                       None \<Rightarrow> None
                     | Some (key, spec) \<Rightarrow> Some (key, v)) = None"
    by (cases x) simp
qed

lemma matched_fields_unmatched:
  assumes "\<And>k. k \<in> fst ` set d \<Longrightarrow> k \<notin> field_id ` snd ` set flds"
  shows "matched_fields flds d = []"
  using assms by (simp add: matched_fields_def matched_items_unmatched)

lemma matched_fields_Nil [simp]: "matched_fields flds [] = []"
  by (simp add: matched_fields_def matched_items_def)

text \<open>
  Claim C5.  \<open>RunnableConfigurableFields._prepare\<close> returns the bound unit itself (the
  same identity, no allocation) when the configuration is absent, when it has no
  "configurable" mapping, and when no key of that mapping is the id of a declared field.
\<close>

theorem prepare_fields_identity:
  "prepare w (RunnableConfigurableFields b flds) None n = (Inr b, n) \<and>
   (configurable c = None \<longrightarrow> prepare w (RunnableConfigurableFields b flds) (Some c) n = (Inr b, n)) \<and>
   (\<forall>d. configurable c = Some d \<and> (\<forall>k \<in> fst ` set d. k \<notin> field_id ` snd ` set flds) \<longrightarrow>
        prepare w (RunnableConfigurableFields b flds) (Some c) n = (Inr b, n))"
proof (intro conjI allI impI)
  show "prepare w (RunnableConfigurableFields b flds) None n = (Inr b, n)"
    by (simp add: prepare_fields_def get_configurable_def empty_config_def)
next
  assume "configurable c = None"
  then show "prepare w (RunnableConfigurableFields b flds) (Some c) n = (Inr b, n)"
    by (simp add: prepare_fields_def get_configurable_def)
next
  fix d
  assume a: "configurable c = Some d \<and> (\<forall>k \<in> fst ` set d. k \<notin> field_id ` snd ` set flds)"
  then have "matched_fields flds d = []"
    by (intro matched_fields_unmatched) blast
  with a show "prepare w (RunnableConfigurableFields b flds) (Some c) n = (Inr b, n)"
    by (simp add: prepare_fields_def get_configurable_def)
qed

theorem prepare_fields_identity_witness:
  "prepare example_world fields_example None 3 = (Inr unit_C, 3) \<and>
   prepare example_world fields_example (Some empty_config) 3 = (Inr unit_C, 3) \<and>
   prepare example_world fields_example (Some (configure [(''model'', PStr ''fast'')])) 3 = (Inr unit_C, 3)"
proof -
  have 1: "configurable empty_config = None" by (simp add: empty_config_def)
  have 2: "configurable (configure [(''model'', PStr ''fast'')]) = Some [(''model'', PStr ''fast'')] \<and>
        (\<forall>k \<in> fst ` set [(''model'', PStr ''fast'')].
            k \<notin> field_id ` snd ` set [(''temp'', temperature_field)])"
    by (simp add: configure_def temperature_field_def)
  note th = prepare_fields_identity [where w = example_world and b = unit_C and flds = "[(''temp'', temperature_field)]" and n = 3]
  from th [where c = empty_config] th [where c = "configure [(''model'', PStr ''fast'')]"] 1 2
  show ?thesis
    unfolding fields_example_def by blast
qed











subsection \<open>Keys that no resolver declares\<close>

lemma matched_fields_filter:
  assumes "set ks \<inter> field_id ` snd ` set flds = {}"
  shows "matched_fields flds (filter (\<lambda>(k, v). k \<notin> set ks) d) = matched_fields flds d"
proof -
  have "matched_items flds (filter (\<lambda>(k, v). k \<notin> set ks) d) = matched_items flds d"
    unfolding matched_items_def
  proof (rule map_filter_filter)
    fix x assume "x \<in> set d" "\<not> (case x of (k, v) \<Rightarrow> k \<notin> set ks)"
    then have "fst x \<in> set ks" by (simp add: case_prod_unfold)
    with assms have "fst x \<notin> field_id ` snd ` set flds" by blast
    then have "map_of (specs_by_id flds) (fst x) = None" by (simp add: specs_by_id_None)
    then show "(case x of (k, v) \<Rightarrow> case map_of (specs_by_id flds) k of
                       None \<Rightarrow> None
                     | Some (key, spec) \<Rightarrow> Some (key, v)) = None"
      by (cases x) simp
  qed
  then show ?thesis by (simp add: matched_fields_def)
qed

text \<open>
  Claim C7.  For both resolvers, removing from the "configurable" mapping any keys that
  the resolver does not declare changes nothing: \<open>_prepare\<close> returns the same unit, or
  raises the same error, with the same allocation, as without them.  Such keys never cause
  an error.
\<close>

theorem prepare_ignores_unknown_keys:
  assumes "set ks \<inter> declared_ids r = {}"
  shows "prepare w r (Some (c\<lparr>configurable := Some d\<rparr>)) n
           = prepare w r (Some (c\<lparr>configurable := Some (filter (\<lambda>(k, v). k \<notin> set ks) d)\<rparr>)) n"
proof (cases r)
  case (RunnableConfigurableFields b flds)
  with assms have "set ks \<inter> field_id ` snd ` set flds = {}" by simp
  then show ?thesis
    by (simp add: RunnableConfigurableFields prepare_fields_def get_configurable_def
          matched_fields_filter)
next
  case (RunnableConfigurableAlternatives b wh alts)
  with assms have "field_id wh \<notin> set ks" by simp
  then show ?thesis
    by (simp add: RunnableConfigurableAlternatives prepare_alternatives_def selector_value_def
          get_configurable_def map_of_filter_other_keys)
qed

theorem prepare_ignores_unknown_keys_witness:
  "prepare example_world fields_example
     (Some (configure [(''temperature'', PInt 9), (''model'', PStr ''fast'')])) 3
     = prepare example_world fields_example (Some (configure [(''temperature'', PInt 9)])) 3 \<and>
   prepare example_world selector_example
     (Some (configure [(''temperature'', PInt 9), (''model'', PStr ''fast'')])) 3
     = prepare example_world selector_example (Some (configure [(''model'', PStr ''fast'')])) 3"
proof -
  have 1: "set [''model''] \<inter> declared_ids fields_example = {}"
    by (simp add: fields_example_def temperature_field_def)
  have 2: "set [''temperature''] \<inter> declared_ids selector_example = {}"
    by (simp add: selector_example_def which_model_def)
  have c: "configure d = empty_config\<lparr>configurable := Some d\<rparr>" for d
    by (simp add: configure_def empty_config_def)
  from prepare_ignores_unknown_keys [OF 1, where w = example_world and c = empty_config and n = 3
      and d = "[(''temperature'', PInt 9), (''model'', PStr ''fast'')]"]
    prepare_ignores_unknown_keys [OF 2, where w = example_world and c = empty_config and n = 3
      and d = "[(''temperature'', PInt 9), (''model'', PStr ''fast'')]"]
  show ?thesis by (simp add: c)
qed

subsection \<open>The configuration specs of the selector\<close>

lemma value_space_which_keys:
  "value_space (Union (map Literal ks @ [Literal ''default''])) = set ks \<union> {''default''}"
  by auto

lemma length_concat_sum: "length (concat xss) = sum_list (map length xss)"
  by (induction xss) auto

text \<open>
  Claim C9.  \<open>RunnableConfigurableAlternatives.config_specs\<close> is, in this order: the spec
  of the selector (its id, name and description; its value space the alternative keys and
  \<open>"default"\<close>; its default \<open>"default"\<close>), the specs of the bound unit, and the specs of
  every alternative in registration order.  Its length is 1 plus the number of specs of the
  bound unit plus the sum of the numbers of specs of the alternatives.
\<close>

theorem config_specs_alternatives_order:
  "\<exists>sel ann.
     config_specs_alternatives w b wh alts
       = sel # unit_config_specs w b @ concat (map (\<lambda>(k, alt). unit_config_specs w alt) alts) \<and>
     spec_id sel = field_id wh \<and> spec_name sel = field_name wh \<and>
     spec_description sel = field_description wh \<and>
     spec_annotation sel = Some ann \<and> value_space ann = fst ` set alts \<union> {''default''} \<and>
     spec_default sel = PStr ''default'' \<and>
     length (config_specs_alternatives w b wh alts)
       = 1 + length (unit_config_specs w b)
           + sum_list (map (\<lambda>(k, alt). length (unit_config_specs w alt)) alts)"
proof -
  let ?sel = "\<lparr>spec_id = field_id wh, spec_name = field_name wh,
     spec_description = field_description wh,
     spec_annotation = Some (Union (map Literal (map fst alts) @ [Literal ''default''])),
     spec_default = PStr ''default''\<rparr>"
  have m: "map (\<lambda>alt. unit_config_specs w alt) (map snd alts)
             = map (\<lambda>(k, alt). unit_config_specs w alt) alts"
    by (simp add: case_prod_unfold)
  have eq: "config_specs_alternatives w b wh alts
       = ?sel # unit_config_specs w b @ concat (map (\<lambda>(k, alt). unit_config_specs w alt) alts)"
    by (simp add: config_specs_alternatives_def comp_def case_prod_unfold)
  have vs: "value_space (Union (map Literal (map fst alts) @ [Literal ''default'']))
        = fst ` set alts \<union> {''default''}"
    using value_space_which_keys [of "map fst alts"] by simp
  have len: "length (config_specs_alternatives w b wh alts)
       = 1 + length (unit_config_specs w b)
           + sum_list (map (\<lambda>(k, alt). length (unit_config_specs w alt)) alts)"
    by (simp add: eq length_concat_sum comp_def case_prod_unfold)
  show ?thesis
    apply (rule exI [of _ ?sel])
    apply (rule exI [of _ "Union (map Literal (map fst alts) @ [Literal ''default''])"])
    using eq vs len by simp
qed

theorem config_specs_alternatives_order_witness:
  "length (config_specs_alternatives example_world unit_C which_model
             [(''fast'', unit_A), (''slow'', unit_B)]) = 2 \<and>
   map spec_id (config_specs_alternatives example_world unit_C which_model
                  [(''fast'', unit_A), (''slow'', unit_B)]) = [''model'', ''retries'']"
proof -
  have s: "unit_config_specs example_world unit_C = []"
    "unit_config_specs example_world unit_A = []"
    "unit_config_specs example_world unit_B =
       [\<lparr>spec_id = ''retries'', spec_name = None, spec_description = None,
         spec_annotation = Some (Named ''int''), spec_default = PInt 2\<rparr>]"
    by (simp_all add: unit_config_specs_def example_world_def unit_A_def unit_B_def unit_C_def)
  from config_specs_alternatives_order
    [of example_world unit_C which_model "[(''fast'', unit_A), (''slow'', unit_B)]"]
  obtain sel where
    eq: "config_specs_alternatives example_world unit_C which_model
           [(''fast'', unit_A), (''slow'', unit_B)]
         = sel # unit_config_specs example_world unit_C
             @ concat (map (\<lambda>(k, alt). unit_config_specs example_world alt)
                 [(''fast'', unit_A), (''slow'', unit_B)])"
    and sid: "spec_id sel = field_id which_model"
    by (elim exE conjE)
  show ?thesis
    unfolding eq by (simp add: s sid which_model_def)
qed

subsection \<open>Batches\<close>

lemma get_config_list_length: "get_config_list config n = Inr cs \<Longrightarrow> length cs = n"
  by (cases config) (auto split: if_splits)

lemma prepare_failure_counter:
  assumes "fst (prepare w r config m) = Inl e"
  shows "prepare w r config n = (Inl e, n)"
proof (cases r)
  case (RunnableConfigurableFields b flds)
  with assms show ?thesis
    by (auto simp: prepare_fields_def construct_def Let_def split: if_splits sum.splits)
next
  case (RunnableConfigurableAlternatives b wh alts)
  with assms show ?thesis by simp
qed

lemma prepare_all_failure:
  assumes "c \<in> set cs" and "fst (prepare w r (Some c) m) = Inl e"
  shows "\<exists>e' n'. prepare_all w r cs n = (Inl e', n') \<and> (\<exists>c' \<in> set cs. fst (prepare w r (Some c') m) = Inl e')"
  using assms(1)
proof (induction cs arbitrary: n)
  case Nil
  then show ?case by simp
next
  case (Cons c0 cs)
  obtain res n0 where p0: "prepare w r (Some c0) n = (res, n0)" by (cases "prepare w r (Some c0) n")
  show ?case
  proof (cases res)
    case (Inl e0)
    with p0 have "fst (prepare w r (Some c0) n) = Inl e0" by simp
    then have "prepare w r (Some c0) m = (Inl e0, m)" by (rule prepare_failure_counter)
    with p0 Inl show ?thesis by auto
  next
    case (Inr p)
    have "c \<noteq> c0"
    proof
      assume "c = c0"
      with assms(2) have "prepare w r (Some c0) n = (Inl e, n)" by (simp add: prepare_failure_counter)
      with p0 Inr show False by simp
    qed
    with Cons.prems have "c \<in> set cs" by simp
    from Cons.IH [OF this, of n0] obtain e' n' c' where
      "prepare_all w r cs n0 = (Inl e', n')" "c' \<in> set cs" "fst (prepare w r (Some c') m) = Inl e'"
      by blast
    with p0 Inr show ?thesis by auto
  qed
qed

lemma prepare_all_success:
  "prepare_all w r cs n = (Inr ps, n') \<Longrightarrow>
   list_all2 (\<lambda>c p. \<exists>k k'. prepare w r (Some c) k = (Inr p, k')) cs ps"
proof (induction cs arbitrary: n ps)
  case Nil
  then show ?case by simp
next
  case (Cons c cs)
  from Cons.prems obtain p n0 ps' where
    p: "prepare w r (Some c) n = (Inr p, n0)" and
    rest: "prepare_all w r cs n0 = (Inr ps', n')" and ps: "ps = p # ps'"
    by (auto split: prod.splits sum.splits)
  from Cons.IH [OF rest] p ps show ?case by auto
qed

lemma prepare_result_counter:
  assumes "prepare w r config k = (Inr p, k')"
  shows "\<exists>p' m'. prepare w r config m = (Inr p', m') \<and> cls p' = cls p \<and> attrs p' = attrs p"
proof (cases r)
  case (RunnableConfigurableFields b flds)
  with assms show ?thesis
    by (auto simp: prepare_fields_def construct_def Let_def split: if_splits sum.splits)
next
  case (RunnableConfigurableAlternatives b wh alts)
  with assms show ?thesis by auto
qed

lemma invoke_of_prepared:
  assumes "prepare w r config k = (Inr p, k')"
  shows "fst (invoke w r x config kw m) = unit_invoke w p x config kw"
proof -
  from prepare_result_counter [OF assms, of m] obtain p' m' where
    "prepare w r config m = (Inr p', m')" "cls p' = cls p" "attrs p' = attrs p"
    by blast
  then show ?thesis by (simp add: invoke_def unit_invoke_def)
qed

lemma per_item_invoke:
  assumes "list_all2 (\<lambda>c p. \<exists>k k'. prepare w r (Some c) k = (Inr p, k')) cs ps"
  shows "map (\<lambda>(p, x, c). unit_invoke w p x (Some c) kw) (zip ps (zip xs cs))
           = map (\<lambda>(x, c). fst (invoke w r x (Some c) kw m)) (zip xs cs)"
  using assms
proof (induction cs ps arbitrary: xs rule: list_all2_induct)
  case Nil
  show ?case by simp
next
  case (Cons c cs p ps)
  note head = Cons.hyps(1) and IH = Cons.IH
  show ?case
  proof (cases xs)
    case Nil
    then show ?thesis by simp
  next
    case xs: (Cons x xs')
    from head obtain k k' where "prepare w r (Some c) k = (Inr p, k')" by blast
    then have "fst (invoke w r x (Some c) kw m) = unit_invoke w p x (Some c) kw"
      by (rule invoke_of_prepared)
    with IH [of xs'] xs show ?thesis by simp
  qed
qed

lemma collect_Inr: "collect (map Inr ys) = Inr ys"
  by (induction ys) auto

lemma collect_raise:
  "collect (map (\<lambda>r. case r of Inl e \<Rightarrow> Inl e | Inr y \<Rightarrow> Inr (Inr y)) rs)
     = (case collect rs of Inl e \<Rightarrow> Inl e | Inr ys \<Rightarrow> Inr (map Inr ys))"
proof (induction rs)
  case Nil
  show ?case by simp
next
  case (Cons r rs)
  then show ?case by (cases r) (auto split: sum.splits)
qed

lemma invoke_item_capture:
  "map (\<lambda>(p, x, c). invoke_item w True kw p x c) zs
     = map Inr (map (\<lambda>(p, x, c). unit_invoke w p x (Some c) kw) zs)"
  by (induction zs) (auto simp: invoke_item_def)

lemma invoke_item_raise:
  "map (\<lambda>(p, x, c). invoke_item w False kw p x c) zs
     = map (\<lambda>r. case r of Inl e \<Rightarrow> Inl e | Inr y \<Rightarrow> Inr (Inr y))
         (map (\<lambda>(p, x, c). unit_invoke w p x (Some c) kw) zs)"
  by (induction zs) (auto simp: invoke_item_def)

lemma executor_map_invoke_item:
  "executor_map (invoke_item w return_exceptions kw) ps xs cs =
     (let rs = map (\<lambda>(p, x, c). unit_invoke w p x (Some c) kw) (zip ps (zip xs cs))
      in if return_exceptions then Inr rs
         else (case collect rs of Inl e \<Rightarrow> Inl e | Inr ys \<Rightarrow> Inr (map Inr ys)))"
proof (cases return_exceptions)
  case True
  then show ?thesis
    unfolding executor_map_def by (simp only: invoke_item_capture collect_Inr Let_def if_True)
next
  case False
  then show ?thesis
    unfolding executor_map_def by (simp only: invoke_item_raise collect_raise Let_def if_False)
qed

lemma single_item:
  assumes "length ps = 1" "length xs = 1" "length cs = 1"
  shows "(case (item0 ps, item0 xs, item0 cs) of
            (Inr p, Inr x, Inr c) \<Rightarrow>
              (case f p x c of
                 Inl e \<Rightarrow> (Inl e, n)
               | Inr y \<Rightarrow> (Inr [y], n))
          | (Inl e, _, _) \<Rightarrow> (Inl e, n)
          | (_, Inl e, _) \<Rightarrow> (Inl e, n)
          | (_, _, Inl e) \<Rightarrow> (Inl e, n))
         = (executor_map f ps xs cs, n)"
proof -
  from assms obtain p x c where "ps = [p]" "xs = [x]" "cs = [c]"
    by (auto simp: length_Suc_conv)
  then show ?thesis
    by (cases "f p x c") (simp_all add: executor_map_def)
qed

lemma batch_fallback_executor:
  assumes gcl: "get_config_list config (length inputs) = Inr configs"
    and prep: "prepare_all w r configs n = (Inr prepared, n')"
    and differs: "\<not> list_all (\<lambda>p. ident p = ident (bound r)) prepared"
  shows "batch w r inputs config return_exceptions kw n
           = (executor_map (invoke_item w return_exceptions kw) prepared inputs configs, n')"
proof -
  have lc: "length configs = length inputs" using gcl by (rule get_config_list_length)
  have lp: "length prepared = length configs"
    using prepare_all_success [OF prep] by (simp add: list_all2_lengthD)
  from differs have "prepared \<noteq> []" by auto
  with lp lc have ne: "inputs \<noteq> []" by auto
  show ?thesis
  proof (cases "length inputs = 1")
    case True
    with lc lp single_item [where ps = prepared and xs = inputs and cs = configs
        and f = "invoke_item w return_exceptions kw" and n = n']
    show ?thesis using gcl prep differs ne by (simp add: batch_def)
  next
    case False
    then show ?thesis using gcl prep differs ne by (simp add: batch_def)
  qed
qed

text \<open>
  Claim C2.  When the configuration broadcasts to \<open>configs\<close>, every resolution succeeds
  and every resolved unit is the bound unit itself (the same identity), \<open>batch\<close> returns
  what the bound unit's own batch primitive returns for the inputs, the original \<open>config\<close>
  argument, the \<open>return_exceptions\<close> flag and the keyword arguments; no unit is invoked
  per item.
\<close>

theorem batch_fast_path:
  assumes "get_config_list config (length inputs) = Inr configs"
    and "prepare_all w r configs n = (Inr prepared, n')"
    and "list_all (\<lambda>p. ident p = ident (bound r)) prepared"
  shows "batch w r inputs config return_exceptions kw n
           = (unit_batch w (bound r) inputs config return_exceptions kw, n')"
  using assms by (simp add: batch_def)

theorem batch_fast_path_witness:
  "batch example_world selector_example [1, 2, 3] (One (select (PStr ''''))) True () 3
     = (Inr [Inr 100, Inr 200, Inr 300], 3)"
proof -
  let ?c = "select (PStr '''')"
  have 1: "get_config_list (One ?c) (length [1::int, 2, 3]) = Inr [?c, ?c, ?c]"
    by (simp add: numeral_3_eq_3)
  have p: "prepare example_world selector_example (Some ?c) n = (Inr unit_C, n)" for n
    by (simp add: prepare_selector_example prepare_alternatives_def selector_value_select)
  have 2: "prepare_all example_world selector_example [?c, ?c, ?c] 3 = (Inr [unit_C, unit_C, unit_C], 3)"
    by (simp add: p)
  have 3: "list_all (\<lambda>p. ident p = ident (bound selector_example)) [unit_C, unit_C, unit_C]"
    by (simp add: selector_example_def)
  have "unit_batch example_world (bound selector_example) [1, 2, 3] (One ?c) True ()
          = Inr [Inr 100, Inr 200, Inr 300]"
    by (simp add: unit_batch_def example_world_def)
  with batch_fast_path [OF 1 2 3, where return_exceptions = True and kw = "()"] show ?thesis by simp
qed

text \<open>
  Claim C3.  On the fallback path (some resolved unit is not the bound unit, so the inputs
  are not empty) let \<open>results\<close> be, position by position, what \<open>invoke\<close> of the input
  with its configuration produces on its own (started with any allocation counter \<open>m\<close>):
  an output, or the exception raised.  The list has the length of the inputs and their
  order.  With \<open>return_exceptions\<close> the batch returns exactly \<open>results\<close>: a failing position
  holds the captured exception, every other position its output.  Without it the batch
  returns the outputs when no item fails, and otherwise raises the exception of the first
  failing item (\<open>collect\<close>).
\<close>

theorem batch_fallback:
  fixes w r inputs config return_exceptions kw n m
  assumes gcl: "get_config_list config (length inputs) = Inr configs"
    and prep: "prepare_all w r configs n = (Inr prepared, n')"
    and differs: "\<not> list_all (\<lambda>p. ident p = ident (bound r)) prepared"
  defines "results \<equiv> map (\<lambda>(x, c). fst (invoke w r x (Some c) kw m)) (zip inputs configs)"
  shows "inputs \<noteq> [] \<and> length results = length inputs \<and>
         (\<forall>i < length inputs.
            results ! i = fst (invoke w r (inputs ! i) (Some (configs ! i)) kw m)) \<and>
         fst (batch w r inputs config True kw n) = Inr results \<and>
         fst (batch w r inputs config False kw n)
           = (case collect results of Inl e \<Rightarrow> Inl e | Inr ys \<Rightarrow> Inr (map Inr ys))"
proof -
  have lc: "length configs = length inputs" using gcl by (rule get_config_list_length)
  have lp: "length prepared = length configs"
    using prepare_all_success [OF prep] by (simp add: list_all2_lengthD)
  from differs have "prepared \<noteq> []" by auto
  with lp lc have ne: "inputs \<noteq> []" by auto
  have rs: "map (\<lambda>(p, x, c). unit_invoke w p x (Some c) kw) (zip prepared (zip inputs configs))
              = results"
    unfolding results_def using prepare_all_success [OF prep] by (rule per_item_invoke)
  have len: "length results = length inputs" by (simp add: results_def lc)
  have nth: "results ! i = fst (invoke w r (inputs ! i) (Some (configs ! i)) kw m)"
    if "i < length inputs" for i
    using that by (simp add: results_def lc)
  have t: "fst (batch w r inputs config True kw n) = Inr results"
    by (simp add: batch_fallback_executor [OF gcl prep differs] executor_map_invoke_item rs)
  have f: "fst (batch w r inputs config False kw n)
           = (case collect results of Inl e \<Rightarrow> Inl e | Inr ys \<Rightarrow> Inr (map Inr ys))"
    by (simp add: batch_fallback_executor [OF gcl prep differs] executor_map_invoke_item rs)
  from ne len nth t f show ?thesis by blast
qed

theorem batch_fallback_witness:
  "fst (batch example_world selector_example [1, 2, 3]
          (Many [select (PStr ''''), select (PStr ''slow''), select (PStr ''fast'')]) True () 3)
     = Inr [Inr 8, Inl (Raised ''timeout''), Inr 4] \<and>
   fst (batch example_world selector_example [1, 2, 3]
          (Many [select (PStr ''''), select (PStr ''slow''), select (PStr ''fast'')]) False () 3)
     = Inl (Raised ''timeout'') \<and>
   fst (batch example_world selector_example [1, 2, 3]
          (Many [select (PStr ''''), select (PStr ''fast''), select (PStr ''fast'')]) False () 3)
     = Inr [Inr 8, Inr 3, Inr 4]"
proof -
  let ?cs = "[select (PStr ''''), select (PStr ''slow''), select (PStr ''fast'')]"
  let ?cs' = "[select (PStr ''''), select (PStr ''fast''), select (PStr ''fast'')]"
  have p: "prepare example_world selector_example (Some (select (PStr ''''))) n = (Inr unit_C, n)"
    "prepare example_world selector_example (Some (select (PStr ''slow''))) n = (Inr unit_B, n)"
    "prepare example_world selector_example (Some (select (PStr ''fast''))) n = (Inr unit_A, n)" for n
    by (simp_all add: prepare_selector_example prepare_alternatives_def selector_value_select)
  have i: "ident unit_A \<noteq> ident unit_C" "ident unit_B \<noteq> ident unit_C"
    "bound selector_example = unit_C"
    by (simp_all add: unit_A_def unit_B_def unit_C_def selector_example_def)
  have 1: "get_config_list (Many ?cs) (length [1::int, 2, 3]) = Inr ?cs"
    "get_config_list (Many ?cs') (length [1::int, 2, 3]) = Inr ?cs'"
    by simp_all
  have 2: "prepare_all example_world selector_example ?cs 3 = (Inr [unit_C, unit_B, unit_A], 3)"
    "prepare_all example_world selector_example ?cs' 3 = (Inr [unit_C, unit_A, unit_A], 3)"
    by (simp_all add: p)
  have 3: "\<not> list_all (\<lambda>p. ident p = ident (bound selector_example)) [unit_C, unit_B, unit_A]"
    "\<not> list_all (\<lambda>p. ident p = ident (bound selector_example)) [unit_C, unit_A, unit_A]"
    by (simp_all add: i)
  have ui: "unit_invoke example_world unit_C x c () = Inr (x + 7)"
    "unit_invoke example_world unit_B x c () = Inl (Raised ''timeout'')"
    "unit_invoke example_world unit_A x c () = Inr (x + 1)" for x c
    by (simp_all add: unit_invoke_def example_world_def unit_A_def unit_B_def unit_C_def)
  have v: "fst (invoke example_world selector_example x (Some (select (PStr ''''))) () 0) = Inr (x + 7)"
    "fst (invoke example_world selector_example x (Some (select (PStr ''slow''))) () 0)
       = Inl (Raised ''timeout'')"
    "fst (invoke example_world selector_example x (Some (select (PStr ''fast''))) () 0) = Inr (x + 1)"
    for x
    by (simp_all add: invoke_def p ui)
  from batch_fallback [OF 1(1) 2(1) 3(1), where kw = "()" and m = 0]
    batch_fallback [OF 1(2) 2(2) 3(2), where kw = "()" and m = 0]
  show ?thesis by (simp add: v)
qed

text \<open>
  Claim C4, as amended.  The resolutions of line 89 run before any item is invoked and
  outside the \<open>try\<close> of lines 107 to 110: when the resolution of some configuration of the
  batch fails, the whole \<open>batch\<close> call raises a resolution error, whatever
  \<open>return_exceptions\<close> is.
\<close>

theorem batch_resolution_failure_aborts:
  assumes "get_config_list config (length inputs) = Inr configs"
    and "c \<in> set configs"
    and "fst (prepare w r (Some c) m) = Inl e"
  shows "\<exists>e' n'. batch w r inputs config return_exceptions kw n = (Inl e', n') \<and>
           (\<exists>c' \<in> set configs. fst (prepare w r (Some c') m) = Inl e')"
proof -
  from prepare_all_failure [OF assms(2,3), of n] obtain e' n' c' where
    "prepare_all w r configs n = (Inl e', n')" "c' \<in> set configs" "fst (prepare w r (Some c') m) = Inl e'"
    by blast
  with assms(1) show ?thesis by (auto simp: batch_def)
qed

theorem batch_resolution_failure_aborts_witness:
  "\<exists>e' n'. batch example_world selector_example [1, 2]
     (Many [select (PStr ''fast''), select (PStr ''bogus'')]) True () 3 = (Inl e', n')"
proof -
  let ?cs = "[select (PStr ''fast''), select (PStr ''bogus'')]"
  have 1: "get_config_list (Many ?cs) (length [1::int, 2]) = Inr ?cs" by simp
  have 2: "select (PStr ''bogus'') \<in> set ?cs" by simp
  have 3: "fst (prepare example_world selector_example (Some (select (PStr ''bogus''))) 0)
             = Inl (ValueError [Lit ''Unknown alternative: '', Val (PStr ''bogus'')])"
    by (simp add: prepare_selector_example prepare_alternatives_def selector_value_select)
  from batch_resolution_failure_aborts [OF 1 2 3, where return_exceptions = True and kw = "()" and n = 3]
  show ?thesis by blast
qed

text \<open>
  Claim C4 as stated fails: with \<open>return_exceptions=True\<close> and the configurations
  selecting \<open>"fast"\<close> and \<open>"bogus"\<close>, the call raises the unrecognized-alternative error
  instead of returning a list with the error in the second position.
\<close>

theorem batch_resolution_failure_counterexample:
  "batch example_world selector_example [1, 2]
     (Many [select (PStr ''fast''), select (PStr ''bogus'')]) True () 3
     = (Inl (ValueError [Lit ''Unknown alternative: '', Val (PStr ''bogus'')]), 3)"
  by (simp add: batch_def prepare_selector_example prepare_alternatives_def selector_value_select
        unit_A_def)

text \<open>
  Claim C8, as amended.  On an empty input list \<open>batch\<close> first broadcasts the
  configuration (line 88), which rejects a non-empty list of configurations; otherwise
  nothing is resolved, the test of line 91 holds vacuously, and the call returns what the
  bound unit's batch primitive returns for the empty input list.  Line 97 is never reached.
\<close>

theorem batch_empty_inputs:
  "batch w r [] config return_exceptions kw n =
     (case get_config_list config 0 of
        Inl e \<Rightarrow> (Inl e, n)
      | Inr configs \<Rightarrow> (unit_batch w (bound r) [] config return_exceptions kw, n))
   \<and> (get_config_list config 0 = Inr [] \<or> (\<exists>c cs e. config = Many (c # cs) \<and> get_config_list config 0 = Inl e))"
proof -
  have "get_config_list config 0 = Inr [] \<or> (\<exists>c cs e. config = Many (c # cs) \<and> get_config_list config 0 = Inl e)"
  proof (cases config)
    case (Many cs)
    then show ?thesis by (cases cs) simp_all
  qed simp_all
  then show ?thesis
    by (auto simp: batch_def)
qed

theorem batch_empty_inputs_witness:
  "batch example_world selector_example [] (One (select (PStr ''fast''))) False () 3 = (Inr [], 3)"
proof -
  have "unit_batch example_world (bound selector_example) [] (One (select (PStr ''fast''))) False ()
          = Inr []"
    by (simp add: unit_batch_def example_world_def)
  with batch_empty_inputs [of example_world selector_example "One (select (PStr ''fast''))" False "()" 3]
  show ?thesis by simp
qed

text \<open>
  Claim C8 as stated fails: on the empty input list with a list of one configuration the
  call raises the error of the broadcast instead of returning an empty sequence.
\<close>

theorem batch_empty_inputs_counterexample:
  "batch example_world selector_example [] (Many [empty_config]) False () 3
     = (Inl (ValueError [Lit ''config must be a list of the same length as inputs, but got '',
                  Val (PInt 1), Lit '' configs for '', Val (PInt 0), Lit '' inputs'']), 3)"
  by (simp add: batch_def)

end
